theory Spec2Isabelle
  imports Main "HOL-Library.Word"
begin

section \<open>Objects and the store\<close>

text \<open>
  The module \<open>jax_shim/numpy.py\<close> defines three classes whose instances refer to each other
  by identity: \<open>array\<close> (a subclass of \<open>numpy.ndarray\<close>), \<open>_AtConstructor\<close> and \<open>_AtOp\<close>.
  Objects live in a store indexed by addresses; a reference is an address. Allocation
  appends to the store, and nothing is ever freed.

  The baseline library is modelled on one-dimensional arrays of 64-bit integers with
  basic keys (an integer or a slice). An array object does not hold its elements: it
  names a buffer and lists the buffer cells it exposes, so that views share data with
  the array they were taken from. Arrays of more dimensions, other element types and
  keys that are arrays of indices or masks are not modelled.
\<close>

type_synonym addr = nat
type_synonym int64 = "64 word"

datatype error = AttributeError string string | IndexError | ValueError | TypeError | SystemError

datatype pykey = KInt int | KSlice "int option" "int option" "int option"

datatype cls = Plain | Augmented

record ndarray =
  klass :: cls
  buf :: addr
  cells :: "nat list"
  at :: "addr option"

datatype pyobj =
    Buffer (content: "int64 list")
  | NDArray (arr: ndarray)
  | AtConstructor (owner: addr)
  | AtOp (owner: addr) (key: pykey)

type_synonym heap = "pyobj list"

definition lookup :: "heap \<Rightarrow> addr \<Rightarrow> pyobj option" where
  "lookup h a = (if a < length h then Some (h ! a) else None)"

definition alloc :: "heap \<Rightarrow> pyobj \<Rightarrow> addr \<times> heap" where
  "alloc h ob = (length h, h @ [ob])"

text \<open>
  \<open>getattr(obj, "at", None)\<close>: a plain \<open>ndarray\<close> has no instance dictionary, so the
  attribute is absent there; an instance of the subclass has it once it was assigned.
\<close>

definition getattr_at :: "heap \<Rightarrow> addr \<Rightarrow> addr option" where
  "getattr_at h a = (case lookup h a of Some (NDArray r) \<Rightarrow> at r | _ \<Rightarrow> None)"

text \<open>
  \<open>obj.at = c\<close>: succeeds on an instance of the subclass; a plain \<open>ndarray\<close> (and an
  object that is no array) rejects the assignment with an AttributeError.
\<close>

definition setattr_at :: "heap \<Rightarrow> addr \<Rightarrow> addr \<Rightarrow> error + heap" where
  "setattr_at h a c =
     (case lookup h a of
        Some (NDArray r) \<Rightarrow>
          (case klass r of
             Augmented \<Rightarrow> Inr (h[a := NDArray (r\<lparr>at := Some c\<rparr>)])
           | Plain \<Rightarrow> Inl (AttributeError ''ndarray'' ''at''))
      | _ \<Rightarrow> Inl (AttributeError ''ndarray'' ''at''))"

section \<open>The classes of the module\<close>

text \<open>\<open>_AtConstructor(owner)\<close>: a new object whose only field is \<open>owner\<close>.\<close>

definition AtConstructor_init :: "heap \<Rightarrow> addr \<Rightarrow> addr \<times> heap" where
  "AtConstructor_init h own = alloc h (AtConstructor own)"

text \<open>
  \<open>array.__array_finalize__(self, obj)\<close>. With \<open>obj\<close> \<open>None\<close> the hook returns at once.
  Otherwise it reads \<open>obj.at\<close> with default \<open>None\<close>; when there is none it builds
  \<open>_AtConstructor(obj)\<close> and stores it in \<open>self.at\<close>, and else it stores the constructor
  it found.
\<close>

definition array_finalize :: "heap \<Rightarrow> addr \<Rightarrow> addr option \<Rightarrow> error + heap" where
  "array_finalize h self obj =
     (case obj of
        None \<Rightarrow> Inr h
      | Some ob \<Rightarrow>
          (case getattr_at h ob of
             None \<Rightarrow> (case AtConstructor_init h ob of (c, h1) \<Rightarrow> setattr_at h1 self c)
           | Some at_constructor \<Rightarrow> setattr_at h self at_constructor))"

section \<open>The baseline library: creating arrays\<close>

text \<open>
  Whenever the baseline library creates an array of a class, it allocates the instance
  (without attributes) and, for the subclass, calls its \<open>__array_finalize__\<close> with the
  object the instance derives from (\<open>None\<close> for an explicit constructor call).
\<close>

definition np_new_from :: "heap \<Rightarrow> cls \<Rightarrow> addr \<Rightarrow> nat list \<Rightarrow> addr option \<Rightarrow> error + (addr \<times> heap)" where
  "np_new_from h c b ps src =
     (case alloc h (NDArray \<lparr>klass = c, buf = b, cells = ps, at = None\<rparr>) of
        (n, h1) \<Rightarrow>
          (case c of
             Plain \<Rightarrow> Inr (n, h1)
           | Augmented \<Rightarrow>
               (case array_finalize h1 n src of Inl e \<Rightarrow> Inl e | Inr h2 \<Rightarrow> Inr (n, h2))))"

text \<open>\<open>a.view(c)\<close>: a new array object of class \<open>c\<close> on the same data.\<close>

definition np_view :: "heap \<Rightarrow> addr \<Rightarrow> cls \<Rightarrow> error + (addr \<times> heap)" where
  "np_view h a c =
     (case lookup h a of
        Some (NDArray r) \<Rightarrow> np_new_from h c (buf r) (cells r) (Some a)
      | _ \<Rightarrow> Inl (AttributeError ''object'' ''view''))"

text \<open>
  \<open>np.asarray(d)\<close>: a sequence of integers becomes a new plain array on a new buffer; a
  plain array is returned as it is; an instance of a subclass is returned as a new
  plain array on the same data (\<open>asarray\<close> does not pass subclasses through).
\<close>

datatype pyinput = PySeq "int64 list" | PyArr addr

definition np_asarray :: "heap \<Rightarrow> pyinput \<Rightarrow> error + (addr \<times> heap)" where
  "np_asarray h d =
     (case d of
        PySeq ws \<Rightarrow>
          (case alloc h (Buffer ws) of
             (b, h1) \<Rightarrow> np_new_from h1 Plain b [0..<length ws] None)
      | PyArr a \<Rightarrow>
          (case lookup h a of
             Some (NDArray r) \<Rightarrow>
               (case klass r of
                  Plain \<Rightarrow> Inr (a, h)
                | Augmented \<Rightarrow> np_new_from h Plain (buf r) (cells r) (Some a))
           | _ \<Rightarrow> Inl TypeError))"

text \<open>
  \<open>array.__new__(cls, input_array)\<close>: \<open>obj = np.asarray(input_array).view(cls)\<close>, then
  \<open>obj.at = _AtConstructor(obj)\<close>, then \<open>return obj\<close>.
\<close>

definition array_new :: "heap \<Rightarrow> pyinput \<Rightarrow> error + (addr \<times> heap)" where
  "array_new h input_array =
     (case np_asarray h input_array of
        Inl e \<Rightarrow> Inl e
      | Inr (p, h1) \<Rightarrow>
          (case np_view h1 p Augmented of
             Inl e \<Rightarrow> Inl e
           | Inr (obj, h2) \<Rightarrow>
               (case AtConstructor_init h2 obj of
                  (c, h3) \<Rightarrow>
                    (case setattr_at h3 obj c of
                       Inl e \<Rightarrow> Inl e
                     | Inr h4 \<Rightarrow> Inr (obj, h4)))))"

text \<open>The object at an address is an array of the given class.\<close>

definition is_array :: "heap \<Rightarrow> addr \<Rightarrow> cls \<Rightarrow> bool" where
  "is_array h a c = (case lookup h a of Some (NDArray r) \<Rightarrow> klass r = c | _ \<Rightarrow> False)"

section \<open>The baseline library: indexing\<close>

text \<open>
  An integer key on an array of \<open>n\<close> elements: a negative key counts from the end, and a
  key outside \<open>-n \<dots> n-1\<close> raises IndexError.
\<close>

definition int_index :: "int \<Rightarrow> nat \<Rightarrow> error + nat" where
  "int_index i len =
     (let n = int len; j = (if i < 0 then i + n else i)
      in if 0 \<le> j \<and> j < n then Inr (nat j) else Inl IndexError)"

text \<open>
  A slice key \<open>start:stop:step\<close> on \<open>n\<close> elements selects what Python's
  \<open>slice.indices(n)\<close> gives: a missing step is 1 and a zero step raises ValueError;
  bounds are clamped, never rejected.
\<close>

definition clamp_bound :: "int \<Rightarrow> int \<Rightarrow> int \<Rightarrow> int" where
  "clamp_bound n step x =
     (if x < 0 then (if x + n < 0 then (if step < 0 then - 1 else 0) else x + n)
      else if n \<le> x then (if step < 0 then n - 1 else n)
      else x)"

definition slice_indices :: "int option \<Rightarrow> int option \<Rightarrow> int option \<Rightarrow> nat \<Rightarrow> error + nat list" where
  "slice_indices start stop step len =
     (let n = int len; st = (case step of None \<Rightarrow> 1 | Some s \<Rightarrow> s)
      in if st = 0 then Inl ValueError
         else
           let lo = (case start of None \<Rightarrow> (if st < 0 then n - 1 else 0) | Some x \<Rightarrow> clamp_bound n st x);
               hi = (case stop of None \<Rightarrow> (if st < 0 then - 1 else n) | Some x \<Rightarrow> clamp_bound n st x);
               cnt = (if st < 0 then (if hi < lo then (lo - hi - 1) div (- st) + 1 else 0)
                      else (if lo < hi then (hi - lo - 1) div st + 1 else 0))
           in Inr (map (\<lambda>j. nat (lo + int j * st)) [0..<nat cnt]))"

text \<open>
  What a key addresses in an array that exposes the buffer cells \<open>cs\<close>: one cell for an
  integer key, a list of cells for a slice.
\<close>

datatype selection = One nat | Many "nat list"

definition select :: "nat list \<Rightarrow> pykey \<Rightarrow> error + selection" where
  "select cs k =
     (case k of
        KInt i \<Rightarrow>
          (case int_index i (length cs) of Inl e \<Rightarrow> Inl e | Inr j \<Rightarrow> Inr (One (cs ! j)))
      | KSlice start stop step \<Rightarrow>
          (case slice_indices start stop step (length cs) of
             Inl e \<Rightarrow> Inl e
           | Inr js \<Rightarrow> Inr (Many (map (\<lambda>j. cs ! j) js))))"

fun sel_cells :: "selection \<Rightarrow> nat list" where
  "sel_cells (One p) = [p]"
| "sel_cells (Many ps) = ps"

text \<open>
  A value is a 64-bit integer or a one-dimensional array of them, taken by value.
  Assigning it to a selection broadcasts it. The single element an integer key
  selects takes a scalar only: an array, even of one element, raises ValueError.
  The elements a slice selects take a scalar or a one-element array, which fills
  the selection, or an array of the selection's length, which is copied; anything
  else raises ValueError.
\<close>

datatype pyvalue = Scalar int64 | Vec "int64 list"

fun elements :: "pyvalue \<Rightarrow> int64 list" where
  "elements (Scalar x) = [x]"
| "elements (Vec xs) = xs"

definition broadcast :: "pyvalue \<Rightarrow> selection \<Rightarrow> error + int64 list" where
  "broadcast v s =
     (case s of
        One p \<Rightarrow>
          (case v of
             Scalar x \<Rightarrow> Inr [x]
           | Vec xs \<Rightarrow> Inl ValueError)
      | Many ps \<Rightarrow>
          (case v of
             Scalar x \<Rightarrow> Inr (replicate (length ps) x)
           | Vec xs \<Rightarrow>
               (if length xs = length ps then Inr xs
                else if length xs = 1 then Inr (replicate (length ps) (hd xs))
                else Inl ValueError)))"

fun store_cells :: "int64 list \<Rightarrow> nat list \<Rightarrow> int64 list \<Rightarrow> int64 list" where
  "store_cells b (p # ps) (x # xs) = store_cells (b[p := x]) ps xs"
| "store_cells b ps xs = b"

text \<open>
  \<open>a[k] = v\<close> on an array: the key selects cells of the array's buffer, the value is
  broadcast to the selection and written into the buffer. An object that is no array
  does not support item assignment (TypeError).
\<close>

definition np_setitem :: "heap \<Rightarrow> addr \<Rightarrow> pykey \<Rightarrow> pyvalue \<Rightarrow> error + heap" where
  "np_setitem h a k v =
     (case lookup h a of
        Some (NDArray r) \<Rightarrow>
          (case select (cells r) k of
             Inl e \<Rightarrow> Inl e
           | Inr s \<Rightarrow>
               (case broadcast v s of
                  Inl e \<Rightarrow> Inl e
                | Inr xs \<Rightarrow>
                    (case lookup h (buf r) of
                       Some (Buffer b) \<Rightarrow>
                         Inr (h[buf r := Buffer (store_cells b (sel_cells s) xs)])
                     | _ \<Rightarrow> Inl SystemError)))
      | _ \<Rightarrow> Inl TypeError)"

text \<open>The elements of \<open>a[k]\<close>, read from the buffer: a scalar for an integer key.\<close>

definition np_read :: "heap \<Rightarrow> addr \<Rightarrow> pykey \<Rightarrow> error + pyvalue" where
  "np_read h a k =
     (case lookup h a of
        Some (NDArray r) \<Rightarrow>
          (case select (cells r) k of
             Inl e \<Rightarrow> Inl e
           | Inr s \<Rightarrow>
               (case lookup h (buf r) of
                  Some (Buffer b) \<Rightarrow>
                    Inr (case s of
                           One p \<Rightarrow> Scalar (b ! p)
                         | Many ps \<Rightarrow> Vec (map (\<lambda>p. b ! p) ps))
                | _ \<Rightarrow> Inl SystemError))
      | _ \<Rightarrow> Inl TypeError)"

text \<open>
  The object \<open>a[k]\<close>: the element for an integer key; for a slice a new array of the
  class of \<open>a\<close> on the same buffer, derived from \<open>a\<close>.
\<close>

datatype pyresult = Val int64 | Ref addr

definition np_getitem :: "heap \<Rightarrow> addr \<Rightarrow> pykey \<Rightarrow> error + (pyresult \<times> heap)" where
  "np_getitem h a k =
     (case lookup h a of
        Some (NDArray r) \<Rightarrow>
          (case select (cells r) k of
             Inl e \<Rightarrow> Inl e
           | Inr (One p) \<Rightarrow>
               (case lookup h (buf r) of
                  Some (Buffer b) \<Rightarrow> Inr (Val (b ! p), h)
                | _ \<Rightarrow> Inl SystemError)
           | Inr (Many ps) \<Rightarrow>
               (case np_new_from h (klass r) (buf r) ps (Some a) of
                  Inl e \<Rightarrow> Inl e
                | Inr (n, h1) \<Rightarrow> Inr (Ref n, h1)))
      | _ \<Rightarrow> Inl TypeError)"

text \<open>
  Element-wise addition with broadcasting, on values: equal lengths add pairwise, a
  scalar or a one-element array is added to every element of the other operand.
  64-bit addition wraps around.
\<close>

definition np_add_values :: "pyvalue \<Rightarrow> pyvalue \<Rightarrow> error + pyvalue" where
  "np_add_values u v =
     (case u of
        Scalar x \<Rightarrow>
          (case v of
             Scalar y \<Rightarrow> Inr (Scalar (x + y))
           | Vec ys \<Rightarrow> Inr (Vec (map (\<lambda>y. x + y) ys)))
      | Vec xs \<Rightarrow>
          (case v of
             Scalar y \<Rightarrow> Inr (Vec (map (\<lambda>x. x + y) xs))
           | Vec ys \<Rightarrow>
               (if length xs = length ys then Inr (Vec (map (\<lambda>(x, y). x + y) (zip xs ys)))
                else if length xs = 1 then Inr (Vec (map (\<lambda>y. hd xs + y) ys))
                else if length ys = 1 then Inr (Vec (map (\<lambda>x. x + hd ys) xs))
                else Inl ValueError)))"

text \<open>
  \<open>a[k] += v\<close>: Python reads \<open>a[k]\<close>, adds \<open>v\<close> to what it read, and assigns the sum
  to \<open>a[k]\<close>.
\<close>

definition np_iadd_item :: "heap \<Rightarrow> addr \<Rightarrow> pykey \<Rightarrow> pyvalue \<Rightarrow> error + heap" where
  "np_iadd_item h a k v =
     (case np_read h a k of
        Inl e \<Rightarrow> Inl e
      | Inr old \<Rightarrow>
          (case np_add_values old v of
             Inl e \<Rightarrow> Inl e
           | Inr new \<Rightarrow> np_setitem h a k new))"

text \<open>
  \<open>a + v\<close>: the sum is a new array of the class of \<open>a\<close> on a buffer of its own, derived
  from \<open>a\<close>.
\<close>

definition np_add :: "heap \<Rightarrow> addr \<Rightarrow> pyvalue \<Rightarrow> error + (addr \<times> heap)" where
  "np_add h a v =
     (case lookup h a of
        Some (NDArray r) \<Rightarrow>
          (case lookup h (buf r) of
             Some (Buffer b) \<Rightarrow>
               (case np_add_values (Vec (map (\<lambda>p. b ! p) (cells r))) v of
                  Inl e \<Rightarrow> Inl e
                | Inr w \<Rightarrow>
                    (case alloc h (Buffer (elements w)) of
                       (nb, h1) \<Rightarrow>
                         np_new_from h1 (klass r) nb [0..<length (elements w)] (Some a)))
           | _ \<Rightarrow> Inl SystemError)
      | _ \<Rightarrow> Inl TypeError)"

section \<open>The indexed-update classes\<close>

text \<open>\<open>_AtOp(owner, key)\<close>: a new object with the two fields.\<close>

definition AtOp_init :: "heap \<Rightarrow> addr \<Rightarrow> pykey \<Rightarrow> addr \<times> heap" where
  "AtOp_init h own k = alloc h (AtOp own k)"

text \<open>\<open>_AtConstructor.__getitem__(self, key)\<close>: \<open>return _AtOp(self.owner, key)\<close>.\<close>

definition AtConstructor_getitem :: "heap \<Rightarrow> addr \<Rightarrow> pykey \<Rightarrow> error + (addr \<times> heap)" where
  "AtConstructor_getitem h self k =
     (case lookup h self of
        Some (AtConstructor own) \<Rightarrow> Inr (AtOp_init h own k)
      | _ \<Rightarrow> Inl (AttributeError ''object'' ''owner''))"

text \<open>\<open>_AtOp.set(self, value)\<close>: \<open>self.owner[self.key] = value\<close>.\<close>

definition AtOp_set :: "heap \<Rightarrow> addr \<Rightarrow> pyvalue \<Rightarrow> error + heap" where
  "AtOp_set h self v =
     (case lookup h self of
        Some (AtOp own k) \<Rightarrow> np_setitem h own k v
      | _ \<Rightarrow> Inl (AttributeError ''object'' ''owner''))"

text \<open>\<open>_AtOp.add(self, value)\<close>: \<open>self.owner[self.key] += value\<close>.\<close>

definition AtOp_add :: "heap \<Rightarrow> addr \<Rightarrow> pyvalue \<Rightarrow> error + heap" where
  "AtOp_add h self v =
     (case lookup h self of
        Some (AtOp own k) \<Rightarrow> np_iadd_item h own k v
      | _ \<Rightarrow> Inl (AttributeError ''object'' ''owner''))"

text \<open>
  The call chains \<open>A.at[k].set(v)\<close> and \<open>A.at[k].add(v)\<close>: the attribute \<open>at\<close> of \<open>A\<close>
  (AttributeError when there is none), subscripted, then applied.
\<close>

definition at_set :: "heap \<Rightarrow> addr \<Rightarrow> pykey \<Rightarrow> pyvalue \<Rightarrow> error + heap" where
  "at_set h a k v =
     (case getattr_at h a of
        None \<Rightarrow> Inl (AttributeError ''array'' ''at'')
      | Some c \<Rightarrow>
          (case AtConstructor_getitem h c k of
             Inl e \<Rightarrow> Inl e
           | Inr (opr, h1) \<Rightarrow> AtOp_set h1 opr v))"

definition at_add :: "heap \<Rightarrow> addr \<Rightarrow> pykey \<Rightarrow> pyvalue \<Rightarrow> error + heap" where
  "at_add h a k v =
     (case getattr_at h a of
        None \<Rightarrow> Inl (AttributeError ''array'' ''at'')
      | Some c \<Rightarrow>
          (case AtConstructor_getitem h c k of
             Inl e \<Rightarrow> Inl e
           | Inr (opr, h1) \<Rightarrow> AtOp_add h1 opr v))"

text \<open>
  The expression \<open>A.at[k]\<close> alone: the attribute \<open>at\<close> of \<open>A\<close> (AttributeError when
  there is none), subscripted with the key.
\<close>

definition at_subscript :: "heap \<Rightarrow> addr \<Rightarrow> pykey \<Rightarrow> error + (addr \<times> heap)" where
  "at_subscript h a k =
     (case getattr_at h a of
        None \<Rightarrow> Inl (AttributeError ''array'' ''at'')
      | Some c \<Rightarrow> AtConstructor_getitem h c k)"

section \<open>The module-level forwarder\<close>

text \<open>
  The baseline library's namespace maps names to objects; \<open>getattr(np, attr)\<close> returns
  the object under the name or raises the library's AttributeError. The module's
  \<open>__getattr__(attr)\<close> is \<open>return getattr(np, attr)\<close>. Python calls it only for a name
  that the module's own dictionary does not define.
\<close>

definition np_getattr :: "(string \<rightharpoonup> 'o) \<Rightarrow> string \<Rightarrow> error + 'o" where
  "np_getattr np attr =
     (case np attr of Some ob \<Rightarrow> Inr ob | None \<Rightarrow> Inl (AttributeError ''numpy'' attr))"

definition module_getattr :: "(string \<rightharpoonup> 'o) \<Rightarrow> string \<Rightarrow> error + 'o" where
  "module_getattr np attr = np_getattr np attr"

definition module_attribute :: "(string \<rightharpoonup> 'o) \<Rightarrow> (string \<rightharpoonup> 'o) \<Rightarrow> string \<Rightarrow> error + 'o" where
  "module_attribute globals np attr =
     (case globals attr of Some ob \<Rightarrow> Inr ob | None \<Rightarrow> module_getattr np attr)"

section \<open>Derived notions\<close>

text \<open>\<open>a.at.owner\<close>, when \<open>a\<close> has the attribute and it is a constructor object.\<close>

definition at_owner :: "heap \<Rightarrow> addr \<Rightarrow> addr option" where
  "at_owner h a =
     (case getattr_at h a of
        None \<Rightarrow> None
      | Some c \<Rightarrow> (case lookup h c of Some (AtConstructor own) \<Rightarrow> Some own | _ \<Rightarrow> None))"

text \<open>
  An array object is well formed when its buffer exists and the cells it exposes are
  distinct cells of that buffer.
\<close>

definition wf_array :: "heap \<Rightarrow> addr \<Rightarrow> bool" where
  "wf_array h a =
     (case lookup h a of
        Some (NDArray r) \<Rightarrow>
          (case lookup h (buf r) of
             Some (Buffer b) \<Rightarrow> distinct (cells r) \<and> list_all (\<lambda>p. p < length b) (cells r)
           | _ \<Rightarrow> False)
      | _ \<Rightarrow> False)"

text \<open>The elements of an array, in order, read through the cells it exposes.\<close>

definition array_values :: "heap \<Rightarrow> addr \<Rightarrow> int64 list option" where
  "array_values h a =
     (case lookup h a of
        Some (NDArray r) \<Rightarrow>
          (case lookup h (buf r) of
             Some (Buffer b) \<Rightarrow> Some (map (\<lambda>p. b ! p) (cells r))
           | _ \<Rightarrow> None)
      | _ \<Rightarrow> None)"

section \<open>Example stores\<close>

text \<open>
  The store after \<open>A = array([1, 2, 3, 4])\<close> from the empty store: the buffer at address 0,
  the intermediate plain array at 1, \<open>A\<close> at 2, the constructor the hook built at 3 and
  the constructor \<open>__new__\<close> built at 4.
\<close>

definition heap_A :: heap where
  "heap_A = [Buffer [1, 2, 3, 4],
             NDArray \<lparr>klass = Plain, buf = 0, cells = [0, 1, 2, 3], at = None\<rparr>,
             NDArray \<lparr>klass = Augmented, buf = 0, cells = [0, 1, 2, 3], at = Some 4\<rparr>,
             AtConstructor 1, AtConstructor 2]"

text \<open>
  The store after \<open>P = np.asarray([1, 2, 3, 4])\<close> from the empty store (\<open>P\<close> at address
  1), and after \<open>V = P.view(array)\<close> on top of it (\<open>V\<close> at 2).
\<close>

definition heap_P :: heap where
  "heap_P = [Buffer [1, 2, 3, 4],
             NDArray \<lparr>klass = Plain, buf = 0, cells = [0, 1, 2, 3], at = None\<rparr>]"

definition heap_V :: heap where
  "heap_V = heap_P @
            [NDArray \<lparr>klass = Augmented, buf = 0, cells = [0, 1, 2, 3], at = Some 3\<rparr>,
             AtConstructor 1]"

text \<open>The store after \<open>B = A[1:3]\<close> on top of \<open>heap_A\<close>: \<open>B\<close> at address 5.\<close>

definition heap_AB :: heap where
  "heap_AB = heap_A @ [NDArray \<lparr>klass = Augmented, buf = 0, cells = [1, 2], at = Some 4\<rparr>]"

text \<open>The store after \<open>S = A + 1\<close> on top of \<open>heap_A\<close>: the sum's buffer at 5, \<open>S\<close> at 6.\<close>

definition heap_A_plus :: heap where
  "heap_A_plus = heap_A @
       [Buffer [2, 3, 4, 5],
        NDArray \<lparr>klass = Augmented, buf = 5, cells = [0, 1, 2, 3], at = Some 4\<rparr>]"

text \<open>
  A namespace of the baseline library with two names, and the module's own dictionary:
  the names the module defines (\<open>np\<close>, \<open>__getattr__\<close>, \<open>array\<close>, \<open>_AtConstructor\<close>,
  \<open>_AtOp\<close>). Objects are numbered.
\<close>

definition example_np :: "string \<rightharpoonup> nat" where
  "example_np = map_of [(''zeros'', 1), (''array'', 2)]"

definition example_globals :: "string \<rightharpoonup> nat" where
  "example_globals =
     map_of [(''np'', 10), (''__getattr__'', 11), (''array'', 12),
             (''_AtConstructor'', 13), (''_AtOp'', 14)]"






text \<open>
  The store after \<open>C = B[0:1]\<close> on top of \<open>heap_AB\<close>, a slice of the slice \<open>B\<close>: \<open>C\<close>
  at address 6.
\<close>

definition heap_ABC :: heap where
  "heap_ABC = heap_AB @ [NDArray \<lparr>klass = Augmented, buf = 0, cells = [1], at = Some 4\<rparr>]"

text \<open>The store after \<open>B.at[2].set(10)\<close> on top of \<open>heap_AB\<close>.\<close>

definition heap_AB_set2 :: heap where
  "heap_AB_set2 = heap_AB[0 := Buffer [1, 2, 10, 4]] @ [AtOp 2 (KInt 2)]"

text \<open>
  A store with an instance \<open>T\<close> of the subclass made by an explicit constructor call of
  the baseline class, \<open>np.ndarray.__new__(array, 4)\<close>: its buffer at address 0 (with
  whatever it holds, here zeros) and \<open>T\<close> at 1. The hook ran with \<open>None\<close>, so \<open>T\<close> has
  no \<open>at\<close>.
\<close>

definition heap_T :: heap where
  "heap_T = [Buffer [0, 0, 0, 0],
             NDArray \<lparr>klass = Augmented, buf = 0, cells = [0, 1, 2, 3], at = None\<rparr>]"

section \<open>The store\<close>

lemma lookup_append_old: "a < length h \<Longrightarrow> lookup (h @ [ob]) a = lookup h a"
  by (simp add: lookup_def nth_append)

lemma lookup_append_new: "lookup (h @ [ob]) (length h) = Some ob"
  by (simp add: lookup_def)

lemma lookup_Some_less: "lookup h a = Some ob \<Longrightarrow> a < length h"
  by (simp add: lookup_def split: if_splits)

lemma lookup_update_same: "a < length h \<Longrightarrow> lookup (h[a := ob]) a = Some ob"
  by (simp add: lookup_def)

lemma lookup_update_other: "x \<noteq> a \<Longrightarrow> lookup (h[a := ob]) x = lookup h x"
  by (simp add: lookup_def)

lemma setattr_at_Augmented:
  assumes "lookup h a = Some (NDArray r)" and "klass r = Augmented"
  shows "setattr_at h a c = Inr (h[a := NDArray (r\<lparr>at := Some c\<rparr>)])"
  using assms by (simp add: setattr_at_def)

lemma getattr_at_update_same:
  "a < length h \<Longrightarrow> getattr_at (h[a := NDArray r]) a = at r"
  by (simp add: getattr_at_def lookup_update_same)

lemma is_array_D: "is_array h a c \<Longrightarrow> \<exists>r. lookup h a = Some (NDArray r) \<and> klass r = c"
  by (auto simp: is_array_def split: option.splits pyobj.splits)

section \<open>Buffers and slices\<close>









section \<open>Creating arrays\<close>

lemma getattr_at_append_old: "a < length h \<Longrightarrow> getattr_at (h @ [ob]) a = getattr_at h a"
  by (simp add: getattr_at_def lookup_append_old)

lemma np_new_from_Plain:
  "np_new_from h Plain b ps src = Inr (length h, h @ [NDArray \<lparr>klass = Plain, buf = b, cells = ps, at = None\<rparr>])"
  by (simp add: np_new_from_def alloc_def)

lemma np_new_from_None:
  "np_new_from h Augmented b ps None
     = Inr (length h, h @ [NDArray \<lparr>klass = Augmented, buf = b, cells = ps, at = None\<rparr>])"
  by (simp add: np_new_from_def alloc_def array_finalize_def)

lemma np_new_from_fresh:
  assumes "src < length h" and "getattr_at h src = None"
  shows "np_new_from h Augmented b ps (Some src)
     = Inr (length h, h @ [NDArray \<lparr>klass = Augmented, buf = b, cells = ps, at = Some (Suc (length h))\<rparr>,
                            AtConstructor src])"
  using assms
  by (simp add: np_new_from_def alloc_def array_finalize_def getattr_at_append_old
      AtConstructor_init_def setattr_at_def lookup_def nth_append)

lemma np_new_from_reuse:
  assumes "src < length h" and "getattr_at h src = Some c"
  shows "np_new_from h Augmented b ps (Some src)
     = Inr (length h, h @ [NDArray \<lparr>klass = Augmented, buf = b, cells = ps, at = Some c\<rparr>])"
  using assms
  by (simp add: np_new_from_def alloc_def array_finalize_def getattr_at_append_old
      setattr_at_def lookup_def nth_append)

lemma np_asarray_result:
  assumes "np_asarray h d = Inr (p, h1)"
  shows "\<exists>r. lookup h1 p = Some (NDArray r) \<and> klass r = Plain \<and> length h \<le> length h1
           \<and> (\<forall>x<length h. lookup h1 x = lookup h x)"
proof (cases d)
  case (PySeq ws)
  with assms show ?thesis
    by (auto simp: np_asarray_def alloc_def np_new_from_Plain lookup_def nth_append)
next
  case (PyArr a)
  with assms show ?thesis
    by (auto simp: np_asarray_def np_new_from_Plain lookup_def nth_append
        split: option.splits pyobj.splits cls.splits if_splits)
qed


lemma np_view_Augmented:
  assumes "lookup h p = Some (NDArray r)"
  shows "np_view h p Augmented
     = Inr (length h,
            h @ NDArray \<lparr>klass = Augmented, buf = buf r, cells = cells r,
                         at = Some (case getattr_at h p of None \<Rightarrow> Suc (length h) | Some c \<Rightarrow> c)\<rparr>
              # (case getattr_at h p of None \<Rightarrow> [AtConstructor p] | Some c \<Rightarrow> []))"
proof -
  have lt: "p < length h" using assms by (rule lookup_Some_less)
  show ?thesis
  proof (cases "getattr_at h p")
    case None
    then show ?thesis using assms lt by (simp add: np_view_def np_new_from_fresh)
  next
    case (Some c)
    then show ?thesis using assms lt by (simp add: np_view_def np_new_from_reuse)
  qed
qed

lemma array_new_result:
  assumes "np_asarray h d = Inr (p, h1)" and "lookup h1 p = Some (NDArray r)"
  shows "array_new h d
     = Inr (length h1,
            h1 @ NDArray \<lparr>klass = Augmented, buf = buf r, cells = cells r,
                          at = Some (case getattr_at h1 p of None \<Rightarrow> length h1 + 2 | Some c \<Rightarrow> length h1 + 1)\<rparr>
               # (case getattr_at h1 p of None \<Rightarrow> [AtConstructor p] | Some c \<Rightarrow> [])
               @ [AtConstructor (length h1)])"
  using assms
  by (cases "getattr_at h1 p")
     (simp_all add: array_new_def np_view_Augmented AtConstructor_init_def alloc_def
        setattr_at_def lookup_def nth_append)

section \<open>The example stores\<close>

lemma asarray_heap_P: "np_asarray [] (PySeq [1, 2, 3, 4]) = Inr (1, heap_P)"
  unfolding heap_P_def by code_simp

lemma view_heap_V: "np_view heap_P 1 Augmented = Inr (2, heap_V)"
  unfolding heap_V_def heap_P_def by code_simp

lemma array_new_heap_A: "array_new [] (PySeq [1, 2, 3, 4]) = Inr (2, heap_A)"
  unfolding heap_A_def by code_simp

lemma slice_heap_AB: "np_getitem heap_A 2 (KSlice (Some 1) (Some 3) None) = Inr (Ref 5, heap_AB)"
  unfolding heap_AB_def heap_A_def by code_simp

section \<open>Derived arrays\<close>

lemma np_new_from_derived:
  assumes "src < length h" and "np_new_from h Augmented b ps (Some src) = Inr (n, h')"
  shows "n = length h \<and> is_array h' n Augmented \<and> getattr_at h' n \<noteq> None
       \<and> (getattr_at h src \<noteq> None \<longrightarrow> getattr_at h' n = getattr_at h src)"
proof (cases "getattr_at h src")
  case None
  from assms(2) have n: "n = length h"
    and h': "h' = h @ [NDArray \<lparr>klass = Augmented, buf = b, cells = ps, at = Some (Suc (length h))\<rparr>,
                      AtConstructor src]"
    unfolding np_new_from_fresh[OF assms(1) None] by auto
  have "is_array h' n Augmented" by (simp add: is_array_def lookup_def n h' nth_append)
  moreover have "getattr_at h' n \<noteq> None" by (simp add: getattr_at_def lookup_def n h' nth_append)
  ultimately show ?thesis using n None by simp
next
  case (Some c)
  from assms(2) have n: "n = length h"
    and h': "h' = h @ [NDArray \<lparr>klass = Augmented, buf = b, cells = ps, at = Some c\<rparr>]"
    unfolding np_new_from_reuse[OF assms(1) Some] by auto
  have "is_array h' n Augmented" by (simp add: is_array_def lookup_def n h' nth_append)
  moreover have "getattr_at h' n = Some c" by (simp add: getattr_at_def lookup_def n h' nth_append)
  ultimately show ?thesis using n Some by simp
qed

lemma derived_by_view:
  assumes "np_view h src Augmented = Inr (b, h')"
  shows "is_array h' b Augmented \<and> getattr_at h' b \<noteq> None
       \<and> (getattr_at h src \<noteq> None \<longrightarrow> getattr_at h' b = getattr_at h src)"
proof -
  from assms obtain r where r: "lookup h src = Some (NDArray r)"
    by (auto simp: np_view_def split: option.splits pyobj.splits)
  then have lt: "src < length h" by (rule lookup_Some_less)
  from assms r have "np_new_from h Augmented (buf r) (cells r) (Some src) = Inr (b, h')"
    by (simp add: np_view_def)
  from np_new_from_derived[OF lt this] show ?thesis by blast
qed

lemma derived_by_slice:
  assumes "is_array h src Augmented" and "np_getitem h src (KSlice i j s) = Inr (Ref b, h')"
  shows "is_array h' b Augmented \<and> getattr_at h' b \<noteq> None
       \<and> (getattr_at h src \<noteq> None \<longrightarrow> getattr_at h' b = getattr_at h src)"
proof -
  from assms(1) obtain r where r: "lookup h src = Some (NDArray r)" "klass r = Augmented"
    using is_array_D by blast
  then have lt: "src < length h" using lookup_Some_less by blast
  from assms(2) r obtain ps where "np_new_from h Augmented (buf r) ps (Some src) = Inr (b, h')"
    by (auto simp: np_getitem_def select_def split: sum.splits selection.splits option.splits pyobj.splits)
  from np_new_from_derived[OF lt this] show ?thesis by blast
qed

lemma derived_by_add:
  assumes "is_array h src Augmented" and "np_add h src v = Inr (b, h')"
  shows "is_array h' b Augmented \<and> getattr_at h' b \<noteq> None
       \<and> (getattr_at h src \<noteq> None \<longrightarrow> getattr_at h' b = getattr_at h src)"
proof -
  from assms(1) obtain r where r: "lookup h src = Some (NDArray r)" "klass r = Augmented"
    using is_array_D by blast
  then have lt: "src < length h" using lookup_Some_less by blast
  from assms(2) r obtain ws ps where
    n: "np_new_from (h @ [Buffer ws]) Augmented (length h) ps (Some src) = Inr (b, h')"
    by (auto simp: np_add_def alloc_def split: sum.splits option.splits pyobj.splits)
  have lt': "src < length (h @ [Buffer ws])" using lt by simp
  have "getattr_at (h @ [Buffer ws]) src = getattr_at h src"
    using lt by (rule getattr_at_append_old)
  with np_new_from_derived[OF lt' n] show ?thesis by metis
qed

lemma add_heap_A_plus: "np_add heap_A 2 (Scalar 1) = Inr (6, heap_A_plus)"
  unfolding heap_A_plus_def heap_A_def by code_simp

section \<open>Indexed assignment\<close>








lemma lookup_array_append_iff:
  "(lookup (h @ [AtOp own k']) a = Some (NDArray r)) = (lookup h a = Some (NDArray r))"
  by (auto simp: lookup_def nth_append split: if_splits)

lemma lookup_buffer_append_iff:
  "(lookup (h @ [AtOp own k']) a = Some (Buffer b)) = (lookup h a = Some (Buffer b))"
  by (auto simp: lookup_def nth_append split: if_splits)

lemma np_read_append_op: "np_read (h @ [AtOp own k']) a k = np_read h a k"
proof (cases "\<exists>r. lookup h a = Some (NDArray r)")
  case False
  then have "\<forall>r. lookup (h @ [AtOp own k']) a \<noteq> Some (NDArray r)"
    by (simp add: lookup_array_append_iff)
  then have "np_read (h @ [AtOp own k']) a k = Inl TypeError"
    by (auto simp: np_read_def split: option.splits pyobj.splits)
  moreover from False have "np_read h a k = Inl TypeError"
    by (auto simp: np_read_def split: option.splits pyobj.splits)
  ultimately show ?thesis by simp
next
  case True
  then obtain r where r: "lookup h a = Some (NDArray r)" by blast
  then have r': "lookup (h @ [AtOp own k']) a = Some (NDArray r)"
    by (simp add: lookup_array_append_iff)
  show ?thesis
  proof (cases "\<exists>b. lookup h (buf r) = Some (Buffer b)")
    case False
    then have "\<forall>b. lookup (h @ [AtOp own k']) (buf r) \<noteq> Some (Buffer b)"
      by (simp add: lookup_buffer_append_iff)
    then have "np_read (h @ [AtOp own k']) a k
         = (case select (cells r) k of Inl e \<Rightarrow> Inl e | Inr s \<Rightarrow> Inl SystemError)"
      using r' by (auto simp: np_read_def split: sum.splits option.splits pyobj.splits)
    moreover from False have "np_read h a k
         = (case select (cells r) k of Inl e \<Rightarrow> Inl e | Inr s \<Rightarrow> Inl SystemError)"
      using r by (auto simp: np_read_def split: sum.splits option.splits pyobj.splits)
    ultimately show ?thesis by simp
  next
    case True
    then obtain b where b: "lookup h (buf r) = Some (Buffer b)" by blast
    then have "lookup (h @ [AtOp own k']) (buf r) = Some (Buffer b)"
      by (simp add: lookup_buffer_append_iff)
    with r r' b show ?thesis by (simp add: np_read_def split: sum.splits)
  qed
qed

lemma np_setitem_append_op:
  "np_setitem (h @ [AtOp own k']) a k v
     = map_sum id (\<lambda>h'. h' @ [AtOp own k']) (np_setitem h a k v)"
proof (cases "\<exists>r. lookup h a = Some (NDArray r)")
  case False
  then have "\<forall>r. lookup (h @ [AtOp own k']) a \<noteq> Some (NDArray r)"
    by (simp add: lookup_array_append_iff)
  then have "np_setitem (h @ [AtOp own k']) a k v = Inl TypeError"
    by (auto simp: np_setitem_def split: option.splits pyobj.splits)
  moreover from False have "np_setitem h a k v = Inl TypeError"
    by (auto simp: np_setitem_def split: option.splits pyobj.splits)
  ultimately show ?thesis by simp
next
  case True
  then obtain r where r: "lookup h a = Some (NDArray r)" by blast
  then have r': "lookup (h @ [AtOp own k']) a = Some (NDArray r)"
    by (simp add: lookup_array_append_iff)
  show ?thesis
  proof (cases "\<exists>b. lookup h (buf r) = Some (Buffer b)")
    case False
    then have "\<forall>b. lookup (h @ [AtOp own k']) (buf r) \<noteq> Some (Buffer b)"
      by (simp add: lookup_buffer_append_iff)
    then have "np_setitem (h @ [AtOp own k']) a k v
          = (case select (cells r) k of Inl e \<Rightarrow> Inl e
             | Inr s \<Rightarrow> (case broadcast v s of Inl e \<Rightarrow> Inl e | Inr xs \<Rightarrow> Inl SystemError))"
      using r' by (auto simp: np_setitem_def split: sum.splits option.splits pyobj.splits)
    moreover from False have "np_setitem h a k v
          = (case select (cells r) k of Inl e \<Rightarrow> Inl e
             | Inr s \<Rightarrow> (case broadcast v s of Inl e \<Rightarrow> Inl e | Inr xs \<Rightarrow> Inl SystemError))"
      using r by (auto simp: np_setitem_def split: sum.splits option.splits pyobj.splits)
    ultimately show ?thesis by (simp split: sum.splits)
  next
    case True
    then obtain b where b: "lookup h (buf r) = Some (Buffer b)" by blast
    then have b': "lookup (h @ [AtOp own k']) (buf r) = Some (Buffer b)"
      by (simp add: lookup_buffer_append_iff)
    from b have "buf r < length h" by (rule lookup_Some_less)
    with r r' b b' show ?thesis
      by (simp add: np_setitem_def list_update_append split: sum.splits)
  qed
qed

lemma np_iadd_item_append_op:
  "np_iadd_item (h @ [AtOp own k']) a k v
     = map_sum id (\<lambda>h'. h' @ [AtOp own k']) (np_iadd_item h a k v)"
  by (simp add: np_iadd_item_def np_read_append_op np_setitem_append_op split: sum.splits)

lemma at_owner_D:
  assumes "at_owner h a = Some own"
  shows "\<exists>c. getattr_at h a = Some c \<and> lookup h c = Some (AtConstructor own)"
  using assms by (auto simp: at_owner_def split: option.splits pyobj.splits)

lemma at_set_eq:
  assumes "at_owner h a = Some own"
  shows "at_set h a k v = map_sum id (\<lambda>h'. h' @ [AtOp own k]) (np_setitem h own k v)"
proof -
  from at_owner_D[OF assms] obtain c where c: "getattr_at h a = Some c" "lookup h c = Some (AtConstructor own)"
    by blast
  then show ?thesis
    by (simp add: at_set_def AtConstructor_getitem_def AtOp_init_def alloc_def AtOp_set_def
        lookup_append_new np_setitem_append_op)
qed

lemma at_add_eq:
  assumes "at_owner h a = Some own"
  shows "at_add h a k v = map_sum id (\<lambda>h'. h' @ [AtOp own k]) (np_iadd_item h own k v)"
proof -
  from at_owner_D[OF assms] obtain c where c: "getattr_at h a = Some c" "lookup h c = Some (AtConstructor own)"
    by blast
  then show ?thesis
    by (simp add: at_add_def AtConstructor_getitem_def AtOp_init_def alloc_def AtOp_add_def
        lookup_append_new np_iadd_item_append_op)
qed

section \<open>Example updates\<close>







section \<open>Indexed increment\<close>





section \<open>What an update leaves alone\<close>




section \<open>More example stores\<close>

lemma slice_heap_ABC: "np_getitem heap_AB 5 (KSlice (Some 0) (Some 1) None) = Inr (Ref 6, heap_ABC)"
  unfolding heap_ABC_def heap_AB_def heap_A_def by code_simp

lemma set_AB_2: "at_set heap_AB 5 (KInt 2) (Scalar 10) = Inr heap_AB_set2"
  unfolding heap_AB_set2_def heap_AB_def heap_A_def by code_simp

lemma new_heap_T: "np_new_from [Buffer [0, 0, 0, 0]] Augmented 0 [0, 1, 2, 3] None = Inr (1, heap_T)"
  unfolding heap_T_def by code_simp

lemma array_new_seq_wf:
  assumes "array_new h (PySeq ws) = Inr (a, h')"
  shows "wf_array h' a"
proof -
  let ?p = "NDArray \<lparr>klass = Plain, buf = length h, cells = [0..<length ws], at = None\<rparr>"
  let ?h1 = "h @ [Buffer ws, ?p]"
  have asa: "np_asarray h (PySeq ws) = Inr (Suc (length h), ?h1)"
    by (simp add: np_asarray_def alloc_def np_new_from_Plain)
  have r: "lookup ?h1 (Suc (length h)) = Some ?p" by (simp add: lookup_def nth_append)
  have g: "getattr_at ?h1 (Suc (length h)) = None" by (simp add: getattr_at_def r)
  from array_new_result[OF asa r] assms g
  have a: "a = length h + 2"
    and h': "h' = ?h1 @ [NDArray \<lparr>klass = Augmented, buf = length h, cells = [0..<length ws],
                                  at = Some (length h + 4)\<rparr>,
                        AtConstructor (Suc (length h)), AtConstructor (length h + 2)]"
    by auto
  show ?thesis
    by (simp add: wf_array_def lookup_def a h' nth_append list_all_iff)
qed

section \<open>The claims\<close>

text \<open>
  C1, as amended. An array returned by the module-level constructor has an \<open>at\<close>
  attribute whose owner is the array itself. An array of the subclass derived by a
  view, a slice or an addition has an \<open>at\<close> attribute, and when the source has one
  it is the source's constructor object.
\<close>

theorem at_present_after_creation:
  "(array_new h d = Inr (a, h') \<longrightarrow> is_array h' a Augmented \<and> at_owner h' a = Some a)
   \<and> (np_view h src Augmented = Inr (b, h') \<longrightarrow>
        is_array h' b Augmented \<and> getattr_at h' b \<noteq> None
        \<and> (getattr_at h src \<noteq> None \<longrightarrow> getattr_at h' b = getattr_at h src))
   \<and> (is_array h src Augmented \<and> np_getitem h src (KSlice i j s) = Inr (Ref b, h') \<longrightarrow>
        is_array h' b Augmented \<and> getattr_at h' b \<noteq> None
        \<and> (getattr_at h src \<noteq> None \<longrightarrow> getattr_at h' b = getattr_at h src))
   \<and> (is_array h src Augmented \<and> np_add h src v = Inr (b, h') \<longrightarrow>
        is_array h' b Augmented \<and> getattr_at h' b \<noteq> None
        \<and> (getattr_at h src \<noteq> None \<longrightarrow> getattr_at h' b = getattr_at h src))"
proof (intro conjI impI)
  assume "array_new h d = Inr (a, h')"
  then obtain p h1 where asa: "np_asarray h d = Inr (p, h1)"
    by (auto simp: array_new_def split: sum.splits)
  from np_asarray_result[OF asa] obtain r where r: "lookup h1 p = Some (NDArray r)"
    by blast
  from array_new_result[OF asa r] \<open>array_new h d = Inr (a, h')\<close>
  have a: "a = length h1"
    and h': "h' = h1 @ NDArray \<lparr>klass = Augmented, buf = buf r, cells = cells r,
                          at = Some (case getattr_at h1 p of None \<Rightarrow> length h1 + 2 | Some c \<Rightarrow> length h1 + 1)\<rparr>
               # (case getattr_at h1 p of None \<Rightarrow> [AtConstructor p] | Some c \<Rightarrow> [])
               @ [AtConstructor (length h1)]"
    by auto
  show "is_array h' a Augmented" by (simp add: is_array_def lookup_def a h' nth_append)
  show "at_owner h' a = Some a"
    by (cases "getattr_at h1 p") (simp_all add: at_owner_def getattr_at_def lookup_def a h' nth_append)
qed (use derived_by_view derived_by_slice derived_by_add in blast)+


theorem at_present_after_creation_witness:
  "array_new [] (PySeq [1, 2, 3, 4]) = Inr (2, heap_A) \<and> at_owner heap_A 2 = Some 2
   \<and> np_view heap_P 1 Augmented = Inr (2, heap_V) \<and> getattr_at heap_V 2 \<noteq> None
   \<and> is_array heap_A 2 Augmented \<and> getattr_at heap_A 2 \<noteq> None
   \<and> np_getitem heap_A 2 (KSlice (Some 1) (Some 3) None) = Inr (Ref 5, heap_AB)
   \<and> getattr_at heap_AB 5 = getattr_at heap_A 2
   \<and> np_add heap_A 2 (Scalar 1) = Inr (6, heap_A_plus)
   \<and> getattr_at heap_A_plus 6 = getattr_at heap_A 2"
proof -
  have arr: "is_array heap_A 2 Augmented" unfolding heap_A_def by code_simp
  have att: "getattr_at heap_A 2 \<noteq> None" unfolding heap_A_def by code_simp
  have 1: "at_owner heap_A 2 = Some 2"
    using at_present_after_creation [where h = "[]" and d = "PySeq [1, 2, 3, 4]" and a = 2 and h' = heap_A] array_new_heap_A
    by simp
  have 2: "getattr_at heap_V 2 \<noteq> None"
    using at_present_after_creation [where h = heap_P and src = 1 and b = 2 and h' = heap_V] view_heap_V by simp
  have 3: "getattr_at heap_AB 5 = getattr_at heap_A 2"
    using at_present_after_creation [where h = heap_A and src = 2 and b = 5 and h' = heap_AB
        and i = "Some 1" and j = "Some 3" and s = None]
      slice_heap_AB arr att by simp
  have 4: "getattr_at heap_A_plus 6 = getattr_at heap_A 2"
    using at_present_after_creation [where h = heap_A and src = 2 and b = 6 and h' = heap_A_plus
        and v = "Scalar 1"]
      add_heap_A_plus arr att by simp
  from 1 2 3 4 arr att array_new_heap_A view_heap_V slice_heap_AB add_heap_A_plus
  show ?thesis by simp
qed

theorem derived_at_owner_counterexample:
  "array_new [] (PySeq [1, 2, 3, 4]) = Inr (2, heap_A)
   \<and> np_getitem heap_A 2 (KSlice (Some 1) (Some 3) None) = Inr (Ref 5, heap_AB)
   \<and> is_array heap_AB 5 Augmented
   \<and> at_owner heap_AB 5 = Some 2
   \<and> at_owner heap_AB 5 \<noteq> Some 5"
proof -
  have "is_array heap_AB 5 Augmented" unfolding heap_AB_def heap_A_def by code_simp
  moreover have "at_owner heap_AB 5 = Some 2" unfolding heap_AB_def heap_A_def by code_simp
  ultimately show ?thesis using array_new_heap_A slice_heap_AB by simp
qed

text \<open>
  C2. The hook, run for \<open>V = P.view(array)\<close> on the plain array \<open>P\<close> (address 1, no \<open>at\<close>),
  gives \<open>V\<close> (address 2) a new constructor whose owner is \<open>P\<close>, not \<open>V\<close>.
\<close>

theorem finalize_plain_source_owner:
  "np_asarray [] (PySeq [1, 2, 3, 4]) = Inr (1, heap_P)
   \<and> getattr_at heap_P 1 = None
   \<and> np_view heap_P 1 Augmented = Inr (2, heap_V)
   \<and> array_finalize
        (heap_P @ [NDArray \<lparr>klass = Augmented, buf = 0, cells = [0, 1, 2, 3], at = None\<rparr>])
        2 (Some 1) = Inr heap_V
   \<and> getattr_at heap_V 2 = Some 3
   \<and> lookup heap_V 3 = Some (AtConstructor 1)
   \<and> at_owner heap_V 2 = Some 1"
proof -
  have "getattr_at heap_P 1 = None" unfolding heap_P_def by code_simp
  moreover have "array_finalize
        (heap_P @ [NDArray \<lparr>klass = Augmented, buf = 0, cells = [0, 1, 2, 3], at = None\<rparr>])
        2 (Some 1) = Inr heap_V" unfolding heap_V_def heap_P_def by code_simp
  moreover have "getattr_at heap_V 2 = Some 3" unfolding heap_V_def heap_P_def by code_simp
  moreover have "lookup heap_V 3 = Some (AtConstructor 1)" unfolding heap_V_def heap_P_def by code_simp
  moreover have "at_owner heap_V 2 = Some 1" unfolding heap_V_def heap_P_def by code_simp
  ultimately show ?thesis using asarray_heap_P view_heap_V by simp
qed

text \<open>
  C3, as amended. When the source object has an \<open>at\<close> attribute, the hook stores that
  same constructor object in the new instance and builds nothing: the store keeps its
  size and changes only at the new instance. The owner of the new instance's
  constructor is therefore the owner the source's constructor already has. That is
  the source array when the source owns its constructor, and then it is not the
  derived array; when the source is itself a derived array it is the array further
  up that the constructor was built for.
\<close>

theorem finalize_reuses_constructor:
  assumes self: "is_array h self Augmented"
      and src: "getattr_at h ob = Some c"
  shows "\<exists>h'. array_finalize h self (Some ob) = Inr h'
            \<and> getattr_at h' self = Some c
            \<and> length h' = length h
            \<and> (\<forall>x. x \<noteq> self \<longrightarrow> lookup h' x = lookup h x)
            \<and> (\<forall>own. at_owner h ob = Some own \<longrightarrow> at_owner h' self = Some own)
            \<and> (at_owner h ob = Some ob \<and> self \<noteq> ob \<longrightarrow> at_owner h' self \<noteq> Some self)"
proof -
  from self obtain r where r: "lookup h self = Some (NDArray r)" "klass r = Augmented"
    using is_array_D by blast
  let ?h' = "h[self := NDArray (r\<lparr>at := Some c\<rparr>)]"
  have lt: "self < length h" using r(1) by (rule lookup_Some_less)
  have fin: "array_finalize h self (Some ob) = Inr ?h'"
    using src r by (simp add: array_finalize_def setattr_at_Augmented)
  have at': "getattr_at ?h' self = Some c"
    using lt by (simp add: getattr_at_update_same)
  have frame: "\<forall>x. x \<noteq> self \<longrightarrow> lookup ?h' x = lookup h x"
    by (simp add: lookup_update_other)
  have own: "\<forall>own. at_owner h ob = Some own \<longrightarrow> at_owner ?h' self = Some own"
  proof (intro allI impI)
    fix own assume o: "at_owner h ob = Some own"
    with src have c: "lookup h c = Some (AtConstructor own)"
      by (auto simp: at_owner_def split: option.splits pyobj.splits)
    with r(1) have "c \<noteq> self" by auto
    then have "lookup ?h' c = Some (AtConstructor own)" using c by (simp add: lookup_update_other)
    with at' show "at_owner ?h' self = Some own" by (simp add: at_owner_def)
  qed
  from fin at' frame own show ?thesis by auto
qed

theorem finalize_reuses_constructor_witness:
  "is_array (heap_A @ [NDArray \<lparr>klass = Augmented, buf = 0, cells = [1, 2], at = None\<rparr>]) 5 Augmented
   \<and> getattr_at (heap_A @ [NDArray \<lparr>klass = Augmented, buf = 0, cells = [1, 2], at = None\<rparr>]) 2 = Some 4
   \<and> at_owner (heap_A @ [NDArray \<lparr>klass = Augmented, buf = 0, cells = [1, 2], at = None\<rparr>]) 2 = Some 2
   \<and> (\<exists>h'. array_finalize (heap_A @ [NDArray \<lparr>klass = Augmented, buf = 0, cells = [1, 2], at = None\<rparr>])
              5 (Some 2) = Inr h'
          \<and> getattr_at h' 5 = Some 4 \<and> at_owner h' 5 = Some 2 \<and> at_owner h' 5 \<noteq> Some 5)"
proof -
  let ?h = "heap_A @ [NDArray \<lparr>klass = Augmented, buf = 0, cells = [1, 2], at = None\<rparr>]"
  have 1: "is_array ?h 5 Augmented" unfolding heap_A_def by code_simp
  have 2: "getattr_at ?h 2 = Some 4" unfolding heap_A_def by code_simp
  have 3: "at_owner ?h 2 = Some 2" unfolding heap_A_def by code_simp
  from finalize_reuses_constructor [OF 1 2] 1 2 3 show ?thesis by auto
qed

theorem finalize_reuse_owner_counterexample:
  "np_getitem heap_A 2 (KSlice (Some 1) (Some 3) None) = Inr (Ref 5, heap_AB)
   \<and> getattr_at heap_AB 5 = Some 4
   \<and> np_getitem heap_AB 5 (KSlice (Some 0) (Some 1) None) = Inr (Ref 6, heap_ABC)
   \<and> array_finalize
        (heap_AB @ [NDArray \<lparr>klass = Augmented, buf = 0, cells = [1], at = None\<rparr>])
        6 (Some 5) = Inr heap_ABC
   \<and> getattr_at heap_ABC 6 = Some 4
   \<and> at_owner heap_ABC 6 = Some 2
   \<and> at_owner heap_ABC 6 \<noteq> Some 5"
proof -
  have "getattr_at heap_AB 5 = Some 4" unfolding heap_AB_def heap_A_def by code_simp
  moreover have "array_finalize
        (heap_AB @ [NDArray \<lparr>klass = Augmented, buf = 0, cells = [1], at = None\<rparr>])
        6 (Some 5) = Inr heap_ABC"
    unfolding heap_ABC_def heap_AB_def heap_A_def by code_simp
  moreover have "getattr_at heap_ABC 6 = Some 4"
    unfolding heap_ABC_def heap_AB_def heap_A_def by code_simp
  moreover have "at_owner heap_ABC 6 = Some 2"
    unfolding heap_ABC_def heap_AB_def heap_A_def by code_simp
  ultimately show ?thesis using slice_heap_AB slice_heap_ABC by simp
qed











text \<open>
  C7. Whenever the baseline library accepts the input, the constructor returns an
  array of the subclass with the buffer, the cells (hence the shape) and the elements
  of the baseline array built from the input. Nothing is copied: every object of the
  store after the baseline conversion is unchanged, and every buffer of the final store
  was already there. The model has the single element type of 64-bit integers.
\<close>

theorem array_new_same_data:
  assumes "np_asarray h d = Inr (p, h1)"
  shows "\<exists>a h' rp ra. array_new h d = Inr (a, h')
           \<and> lookup h1 p = Some (NDArray rp) \<and> lookup h' a = Some (NDArray ra)
           \<and> klass ra = Augmented \<and> buf ra = buf rp \<and> cells ra = cells rp
           \<and> (\<forall>x<length h1. lookup h' x = lookup h1 x)
           \<and> (\<forall>x ws. lookup h' x = Some (Buffer ws) \<longrightarrow> lookup h1 x = Some (Buffer ws))
           \<and> (array_values h1 p \<noteq> None \<longrightarrow> array_values h' a = array_values h1 p)"
proof -
  from np_asarray_result[OF assms] obtain r where r: "lookup h1 p = Some (NDArray r)"
    by blast
  define extra where "extra = (case getattr_at h1 p of None \<Rightarrow> [AtConstructor p] | Some c \<Rightarrow> [])"
  define ra where "ra = \<lparr>klass = Augmented, buf = buf r, cells = cells r,
        at = Some (case getattr_at h1 p of None \<Rightarrow> length h1 + 2 | Some c \<Rightarrow> length h1 + 1)\<rparr>"
  define h' where "h' = h1 @ NDArray ra # extra @ [AtConstructor (length h1)]"
  have res: "array_new h d = Inr (length h1, h')"
    using array_new_result[OF assms r] by (simp add: h'_def ra_def extra_def)
  have a: "lookup h' (length h1) = Some (NDArray ra)"
    by (simp add: lookup_def h'_def)
  have old: "\<forall>x<length h1. lookup h' x = lookup h1 x"
    by (simp add: lookup_def h'_def nth_append)
  have nobuf: "\<forall>ob \<in> set (NDArray ra # extra @ [AtConstructor (length h1)]). \<forall>ws. ob \<noteq> Buffer ws"
    by (auto simp: extra_def split: option.splits)
  have bufs: "\<forall>x ws. lookup h' x = Some (Buffer ws) \<longrightarrow> lookup h1 x = Some (Buffer ws)"
  proof (intro allI impI)
    fix x ws assume b: "lookup h' x = Some (Buffer ws)"
    show "lookup h1 x = Some (Buffer ws)"
    proof (cases "x < length h1")
      case True
      with old b show ?thesis by simp
    next
      case False
      from b have xl: "x < length h'" by (rule lookup_Some_less)
      from xl have "x - length h1 < length (NDArray ra # extra @ [AtConstructor (length h1)])"
        using False by (simp add: h'_def)
      then have "(NDArray ra # extra @ [AtConstructor (length h1)]) ! (x - length h1)
                   \<in> set (NDArray ra # extra @ [AtConstructor (length h1)])"
        by (rule nth_mem)
      moreover have "h' ! x = (NDArray ra # extra @ [AtConstructor (length h1)]) ! (x - length h1)"
        using False by (simp add: h'_def nth_append)
      ultimately have "h' ! x \<in> set (NDArray ra # extra @ [AtConstructor (length h1)])"
        by simp
      moreover from b xl have "h' ! x = Buffer ws" by (simp add: lookup_def)
      ultimately show ?thesis using nobuf by auto
    qed
  qed
  have vals: "array_values h1 p \<noteq> None \<longrightarrow> array_values h' (length h1) = array_values h1 p"
  proof
    assume "array_values h1 p \<noteq> None"
    with r obtain b where b: "lookup h1 (buf r) = Some (Buffer b)"
      by (auto simp: array_values_def split: option.splits pyobj.splits)
    then have "buf r < length h1" by (rule lookup_Some_less)
    with old b have "lookup h' (buf r) = Some (Buffer b)" by simp
    with a r b show "array_values h' (length h1) = array_values h1 p"
      by (simp add: array_values_def ra_def)
  qed
  have k: "klass ra = Augmented" "buf ra = buf r" "cells ra = cells r"
    by (simp_all add: ra_def)
  from res r a old bufs vals k show ?thesis by blast
qed

theorem array_new_same_data_witness:
  "np_asarray [] (PySeq [1, 2, 3, 4]) = Inr (1, heap_P)
   \<and> array_new [] (PySeq [1, 2, 3, 4]) = Inr (2, heap_A)
   \<and> array_values heap_P 1 = Some [1, 2, 3, 4]
   \<and> array_values heap_A 2 = Some [1, 2, 3, 4]"
proof -
  have v: "array_values heap_P 1 = Some [1, 2, 3, 4]" unfolding heap_P_def by code_simp
  from array_new_same_data [OF asarray_heap_P] obtain a h' where
    n: "array_new [] (PySeq [1, 2, 3, 4]) = Inr (a, h')"
    and e: "array_values heap_P 1 \<noteq> None \<longrightarrow> array_values h' a = array_values heap_P 1"
    by blast
  from n array_new_heap_A have "a = 2" "h' = heap_A" by simp_all
  with e v have "array_values heap_A 2 = Some [1, 2, 3, 4]" by simp
  with asarray_heap_P array_new_heap_A v show ?thesis by simp
qed

text \<open>
  C8, as amended. For an array \<open>A\<close> that has an \<open>at\<close> attribute, and any key,
  \<open>A.at[k]\<close> never fails and does not look at the key: it allocates an operation object
  holding the owner of the constructor and the key as given. Applying an operation
  object, wherever it lies in the store, is exactly the baseline assignment (or
  increment) on the owner it holds with the key it holds. So \<open>A.at[k].set(v)\<close> and
  \<open>A.at[k].add(v)\<close> give whatever the baseline library gives for the owner, and an
  error of the key for the owner surfaces there, unchanged. The owner is \<open>A\<close> only
  when \<open>A\<close> owns its constructor.
\<close>

theorem at_subscription_defers_errors:
  assumes "at_owner h a = Some own"
  shows "at_subscript h a k = Inr (length h, h @ [AtOp own k])
       \<and> (\<forall>c. lookup h c = Some (AtConstructor own) \<longrightarrow>
             AtConstructor_getitem h c k = Inr (length h, h @ [AtOp own k]))
       \<and> (\<forall>h1 opr. lookup h1 opr = Some (AtOp own k) \<longrightarrow>
             AtOp_set h1 opr v = np_setitem h1 own k v
           \<and> AtOp_add h1 opr v = np_iadd_item h1 own k v)
       \<and> at_set h a k v = (case at_subscript h a k of
                              Inl e \<Rightarrow> Inl e | Inr (opr, h1) \<Rightarrow> AtOp_set h1 opr v)
       \<and> at_add h a k v = (case at_subscript h a k of
                              Inl e \<Rightarrow> Inl e | Inr (opr, h1) \<Rightarrow> AtOp_add h1 opr v)
       \<and> at_set h a k v = map_sum id (\<lambda>h0. h0 @ [AtOp own k]) (np_setitem h own k v)
       \<and> at_add h a k v = map_sum id (\<lambda>h0. h0 @ [AtOp own k]) (np_iadd_item h own k v)
       \<and> (\<forall>r e. lookup h own = Some (NDArray r) \<and> select (cells r) k = Inl e \<longrightarrow>
             at_set h a k v = Inl e \<and> at_add h a k v = Inl e)"
proof -
  from at_owner_D[OF assms] obtain c where c: "getattr_at h a = Some c"
    and co: "lookup h c = Some (AtConstructor own)" by blast
  have 1: "at_subscript h a k = Inr (length h, h @ [AtOp own k])"
    using c co by (simp add: at_subscript_def AtConstructor_getitem_def AtOp_init_def alloc_def)
  have 2: "\<forall>c. lookup h c = Some (AtConstructor own) \<longrightarrow>
             AtConstructor_getitem h c k = Inr (length h, h @ [AtOp own k])"
    by (simp add: AtConstructor_getitem_def AtOp_init_def alloc_def)
  have 3: "\<forall>h1 opr. lookup h1 opr = Some (AtOp own k) \<longrightarrow>
             AtOp_set h1 opr v = np_setitem h1 own k v
           \<and> AtOp_add h1 opr v = np_iadd_item h1 own k v"
    by (simp add: AtOp_set_def AtOp_add_def)
  have 4: "at_set h a k v = (case at_subscript h a k of
                              Inl e \<Rightarrow> Inl e | Inr (opr, h1) \<Rightarrow> AtOp_set h1 opr v)"
    using c by (simp add: at_set_def at_subscript_def)
  have 5: "at_add h a k v = (case at_subscript h a k of
                              Inl e \<Rightarrow> Inl e | Inr (opr, h1) \<Rightarrow> AtOp_add h1 opr v)"
    using c by (simp add: at_add_def at_subscript_def)
  have 6: "at_set h a k v = map_sum id (\<lambda>h0. h0 @ [AtOp own k]) (np_setitem h own k v)"
    using assms by (rule at_set_eq)
  have 7: "at_add h a k v = map_sum id (\<lambda>h0. h0 @ [AtOp own k]) (np_iadd_item h own k v)"
    using assms by (rule at_add_eq)
  have 8: "\<forall>r e. lookup h own = Some (NDArray r) \<and> select (cells r) k = Inl e \<longrightarrow>
             at_set h a k v = Inl e \<and> at_add h a k v = Inl e"
  proof (intro allI impI, elim conjE)
    fix r e assume r: "lookup h own = Some (NDArray r)" and e: "select (cells r) k = Inl e"
    then have "np_setitem h own k v = Inl e" by (simp add: np_setitem_def)
    moreover from r e have "np_iadd_item h own k v = Inl e"
      by (simp add: np_iadd_item_def np_read_def)
    ultimately show "at_set h a k v = Inl e \<and> at_add h a k v = Inl e"
      using 6 7 by simp
  qed
  from 1 2 3 4 5 6 7 8 show ?thesis by blast
qed

theorem at_subscription_defers_errors_witness:
  "at_owner heap_A 2 = Some 2
   \<and> at_subscript heap_A 2 (KInt 7) = Inr (5, heap_A @ [AtOp 2 (KInt 7)])
   \<and> lookup heap_A 4 = Some (AtConstructor 2)
   \<and> AtConstructor_getitem heap_A 4 (KInt 7) = Inr (5, heap_A @ [AtOp 2 (KInt 7)])
   \<and> lookup heap_A 2 = Some (NDArray \<lparr>klass = Augmented, buf = 0, cells = [0, 1, 2, 3], at = Some 4\<rparr>)
   \<and> select [0, 1, 2, 3] (KInt 7) = Inl IndexError
   \<and> np_setitem heap_A 2 (KInt 7) (Scalar 10) = Inl IndexError
   \<and> at_set heap_A 2 (KInt 7) (Scalar 10) = Inl IndexError
   \<and> at_add heap_A 2 (KInt 7) (Scalar 10) = Inl IndexError
   \<and> lookup (heap_A @ [AtOp 2 (KInt 7),
                        NDArray \<lparr>klass = Augmented, buf = 0, cells = [1, 2], at = Some 4\<rparr>]) 5
         = Some (AtOp 2 (KInt 7))
   \<and> AtOp_set (heap_A @ [AtOp 2 (KInt 7),
                          NDArray \<lparr>klass = Augmented, buf = 0, cells = [1, 2], at = Some 4\<rparr>]) 5
         (Scalar 10) = Inl IndexError"
proof -
  let ?r = "\<lparr>klass = Augmented, buf = 0, cells = [0, 1, 2, 3], at = Some 4\<rparr>"
  let ?h1 = "heap_A @ [AtOp 2 (KInt 7),
                        NDArray \<lparr>klass = Augmented, buf = 0, cells = [1, 2], at = Some 4\<rparr>]"
  have 1: "at_owner heap_A 2 = Some 2" unfolding heap_A_def by code_simp
  have 2: "lookup heap_A 4 = Some (AtConstructor 2)" unfolding heap_A_def by code_simp
  have 3: "lookup heap_A 2 = Some (NDArray ?r)" unfolding heap_A_def by code_simp
  have 4: "select (cells ?r) (KInt 7) = Inl IndexError" by code_simp
  have 5: "np_setitem heap_A 2 (KInt 7) (Scalar 10) = Inl IndexError"
    unfolding heap_A_def by code_simp
  have 6: "length heap_A = 5" by (simp add: heap_A_def)
  have 7: "lookup ?h1 5 = Some (AtOp 2 (KInt 7))" unfolding heap_A_def by code_simp
  have 8: "np_setitem ?h1 2 (KInt 7) (Scalar 10) = Inl IndexError"
    unfolding heap_A_def by code_simp
  note inst = at_subscription_defers_errors [OF 1, of "KInt 7" "Scalar 10"]
  from inst have a: "at_subscript heap_A 2 (KInt 7) = Inr (length heap_A, heap_A @ [AtOp 2 (KInt 7)])"
    by blast
  from inst 2 have b: "AtConstructor_getitem heap_A 4 (KInt 7)
                        = Inr (length heap_A, heap_A @ [AtOp 2 (KInt 7)])"
    by blast
  from inst 3 4 have c: "at_set heap_A 2 (KInt 7) (Scalar 10) = Inl IndexError"
    and d: "at_add heap_A 2 (KInt 7) (Scalar 10) = Inl IndexError"
    by blast+
  from inst 7 have "AtOp_set ?h1 5 (Scalar 10) = np_setitem ?h1 2 (KInt 7) (Scalar 10)"
    by blast
  with 8 have e: "AtOp_set ?h1 5 (Scalar 10) = Inl IndexError" by simp
  from 1 2 3 4 5 6 7 a b c d e show ?thesis by simp
qed

theorem at_subscription_owner_counterexample:
  "np_getitem heap_A 2 (KSlice (Some 1) (Some 3) None) = Inr (Ref 5, heap_AB)
   \<and> array_values heap_AB 5 = Some [2, 3]
   \<and> np_read heap_AB 5 (KInt 2) = Inl IndexError
   \<and> np_setitem heap_AB 5 (KInt 2) (Scalar 10) = Inl IndexError
   \<and> at_set heap_AB 5 (KInt 2) (Scalar 10) = Inr heap_AB_set2
   \<and> array_values heap_AB_set2 2 = Some [1, 2, 10, 4]
   \<and> np_new_from [Buffer [0, 0, 0, 0]] Augmented 0 [0, 1, 2, 3] None = Inr (1, heap_T)
   \<and> is_array heap_T 1 Augmented
   \<and> at_subscript heap_T 1 (KInt 0) = Inl (AttributeError ''array'' ''at'')"
proof -
  have "array_values heap_AB 5 = Some [2, 3]" unfolding heap_AB_def heap_A_def by code_simp
  moreover have "np_read heap_AB 5 (KInt 2) = Inl IndexError"
    unfolding heap_AB_def heap_A_def by code_simp
  moreover have "np_setitem heap_AB 5 (KInt 2) (Scalar 10) = Inl IndexError"
    unfolding heap_AB_def heap_A_def by code_simp
  moreover have "array_values heap_AB_set2 2 = Some [1, 2, 10, 4]"
    unfolding heap_AB_set2_def heap_AB_def heap_A_def by code_simp
  moreover have "is_array heap_T 1 Augmented" unfolding heap_T_def by code_simp
  moreover have "at_subscript heap_T 1 (KInt 0) = Inl (AttributeError ''array'' ''at'')"
    unfolding heap_T_def by code_simp
  ultimately show ?thesis using slice_heap_AB set_AB_2 new_heap_T by simp
qed

text \<open>
  C9. For a name that the module does not define itself, attribute access on the
  module gives exactly what \<open>getattr\<close> on the baseline library gives: the very object
  the library has under the name, or the library's own AttributeError when it has
  none.
\<close>

theorem module_attribute_forwards:
  assumes "globals attr = None"
  shows "module_attribute globals np attr = np_getattr np attr
       \<and> (\<forall>ob. np attr = Some ob \<longrightarrow> module_attribute globals np attr = Inr ob)
       \<and> (np attr = None \<longrightarrow> module_attribute globals np attr = Inl (AttributeError ''numpy'' attr))"
  using assms by (simp add: module_attribute_def module_getattr_def np_getattr_def)

theorem module_attribute_forwards_witness:
  "example_globals ''zeros'' = None \<and> example_np ''zeros'' = Some 1
   \<and> module_attribute example_globals example_np ''zeros'' = Inr 1
   \<and> example_globals ''ones'' = None \<and> example_np ''ones'' = None
   \<and> module_attribute example_globals example_np ''ones'' = Inl (AttributeError ''numpy'' ''ones'')"
proof -
  have g1: "example_globals ''zeros'' = None" by (simp add: example_globals_def)
  have g2: "example_globals ''ones'' = None" by (simp add: example_globals_def)
  have n1: "example_np ''zeros'' = Some 1" by (simp add: example_np_def)
  have n2: "example_np ''ones'' = None" by (simp add: example_np_def)
  from module_attribute_forwards [where globals = example_globals and attr = "''zeros''" and np = example_np]
       module_attribute_forwards [where globals = example_globals and attr = "''ones''" and np = example_np]
       g1 g2 n1 n2
  show ?thesis by (simp add: np_getattr_def)
qed

text \<open>
  C10. Whatever the input, an array returned by the module-level constructor owns its
  \<open>at\<close> constructor. The view step runs the hook, which leaves some constructor in
  \<open>at\<close> (owned by the intermediate plain array when that array has no \<open>at\<close>); the
  constructor body then replaces it by a new object, allocated after the view step,
  whose owner is the new array.
\<close>

theorem array_new_self_owned:
  assumes "array_new h d = Inr (a, h')"
  shows "is_array h' a Augmented \<and> at_owner h' a = Some a
       \<and> (\<exists>p h1 h2. np_asarray h d = Inr (p, h1) \<and> np_view h1 p Augmented = Inr (a, h2)
             \<and> getattr_at h2 a \<noteq> None
             \<and> getattr_at h' a = Some (length h2)
             \<and> (getattr_at h1 p = None \<longrightarrow> at_owner h2 a = Some p \<and> p \<noteq> a))"
proof -
  from assms obtain p h1 where asa: "np_asarray h d = Inr (p, h1)"
    by (auto simp: array_new_def split: sum.splits)
  from np_asarray_result[OF asa] obtain r where r: "lookup h1 p = Some (NDArray r)"
    by blast
  have lt: "p < length h1" using r by (rule lookup_Some_less)
  note res = array_new_result[OF asa r]
  note vw = np_view_Augmented[OF r]
  from res assms have a: "a = length h1" by simp
  show ?thesis
  proof (cases "getattr_at h1 p")
    case None
    with res assms have h': "h' = h1 @ [NDArray \<lparr>klass = Augmented, buf = buf r, cells = cells r, at = Some (length h1 + 2)\<rparr>,
        AtConstructor p, AtConstructor (length h1)]" by simp
    have 1: "is_array h' a Augmented" by (simp add: is_array_def lookup_def h' a nth_append)
    have 2: "at_owner h' a = Some a" by (simp add: at_owner_def getattr_at_def lookup_def h' a nth_append)
    have 3: "getattr_at h' a = Some (length h1 + 2)" by (simp add: getattr_at_def lookup_def h' a nth_append)
    let ?h2 = "h1 @ [NDArray \<lparr>klass = Augmented, buf = buf r, cells = cells r, at = Some (Suc (length h1))\<rparr>, AtConstructor p]"
    have 4: "np_view h1 p Augmented = Inr (a, ?h2)" using vw None by (simp add: a)
    have 5: "getattr_at ?h2 a \<noteq> None" by (simp add: getattr_at_def lookup_def a nth_append)
    have 6: "at_owner ?h2 a = Some p" by (simp add: at_owner_def getattr_at_def lookup_def a nth_append)
    have 7: "p \<noteq> a" using lt a by simp
    from asa 1 2 3 4 5 6 7 show ?thesis by auto
  next
    case (Some c)
    with res assms have h': "h' = h1 @ [NDArray \<lparr>klass = Augmented, buf = buf r, cells = cells r, at = Some (length h1 + 1)\<rparr>,
        AtConstructor (length h1)]" by simp
    have 1: "is_array h' a Augmented" by (simp add: is_array_def lookup_def h' a nth_append)
    have 2: "at_owner h' a = Some a" by (simp add: at_owner_def getattr_at_def lookup_def h' a nth_append)
    have 3: "getattr_at h' a = Some (length h1 + 1)" by (simp add: getattr_at_def lookup_def h' a nth_append)
    let ?h2 = "h1 @ [NDArray \<lparr>klass = Augmented, buf = buf r, cells = cells r, at = Some c\<rparr>]"
    have 4: "np_view h1 p Augmented = Inr (a, ?h2)" using vw Some by (simp add: a)
    have 5: "getattr_at ?h2 a \<noteq> None" by (simp add: getattr_at_def lookup_def a nth_append)
    from asa 1 2 3 4 5 Some show ?thesis by auto
  qed
qed

theorem array_new_self_owned_witness:
  "array_new [] (PySeq [1, 2, 3, 4]) = Inr (2, heap_A)
   \<and> is_array heap_A 2 Augmented \<and> at_owner heap_A 2 = Some 2
   \<and> np_asarray [] (PySeq [1, 2, 3, 4]) = Inr (1, heap_P) \<and> getattr_at heap_P 1 = None
   \<and> np_view heap_P 1 Augmented = Inr (2, heap_V) \<and> at_owner heap_V 2 = Some 1
   \<and> getattr_at heap_A 2 = Some (length heap_V)"
proof -
  have "getattr_at heap_P 1 = None" unfolding heap_P_def by code_simp
  then show ?thesis
    using array_new_self_owned [OF array_new_heap_A] array_new_heap_A asarray_heap_P view_heap_V
    by auto
qed

end
